theory Spec2Isabelle
  imports Main "HOL-Library.Sublist"
begin

section \<open>The grant checker of the userscript template\<close>

text \<open>
  The script \<^verbatim>\<open>check-grants\<close> reads \<^verbatim>\<open>meta.json\<close>, walks the \<^verbatim>\<open>src\<close>
  directory, collects every \<^verbatim>\<open>GM_\<close> identifier of the \<^verbatim>\<open>.ts\<close> and \<^verbatim>\<open>.js\<close> files
  and compares them with the \<^verbatim>\<open>grant\<close> array of the manifest.

  Strings are byte lists: a file is its UTF-8 text. The pattern of the script only matches
  ASCII characters, and no byte of a multi-byte UTF-8 sequence is ASCII, so matching on the
  bytes finds the same identifiers as matching on the UTF-16 units of the JavaScript string.
\<close>

subsection \<open>JavaScript sets of strings\<close>

text \<open>
  A JavaScript \<^verbatim>\<open>Set\<close> iterates in insertion order and holds every value once: a list
  without duplicates, a new value going to the end.
\<close>

type_synonym js_set = "string list"

definition Set_has :: "js_set \<Rightarrow> string \<Rightarrow> bool" where
  "Set_has s x = (x \<in> set s)"

definition Set_add :: "js_set \<Rightarrow> string \<Rightarrow> js_set" where
  "Set_add s x = (if Set_has s x then s else s @ [x])"

text \<open>\<^verbatim>\<open>new Set(iterable)\<close> adds the values of the iterable one by one.\<close>

definition new_Set :: "string list \<Rightarrow> js_set" where
  "new_Set xs = foldl Set_add [] xs"

subsection \<open>The pattern \<^verbatim>\<open>/\bGM_\w+/g\<close>\<close>

text \<open>\<^verbatim>\<open>\w\<close> without the unicode flag is \<^verbatim>\<open>[A-Za-z0-9_]\<close>.\<close>

definition word_char :: "char \<Rightarrow> bool" where
  "word_char c =
     (let n = of_char c :: nat
      in (65 \<le> n \<and> n \<le> 90) \<or> (97 \<le> n \<and> n \<le> 122) \<or> (48 \<le> n \<and> n \<le> 57) \<or> n = 95)"

text \<open>
  One attempt of the pattern at the current position. \<open>prev\<close> tells whether the
  character before the position is a word character (\<open>False\<close> at the start of the text).
  \<^verbatim>\<open>\b\<close> holds where exactly one of the two neighbours is a word character; the literal
  \<^verbatim>\<open>GM_\<close> follows, then \<^verbatim>\<open>\w+\<close> takes as many word characters as there are and needs
  one. Nothing follows \<^verbatim>\<open>\w+\<close> in the pattern, so the greedy match is the match.
\<close>

definition word_boundary :: "bool \<Rightarrow> string \<Rightarrow> bool" where
  "word_boundary prev s = (prev \<noteq> (case s of [] \<Rightarrow> False | c # _ \<Rightarrow> word_char c))"

definition match_at :: "bool \<Rightarrow> string \<Rightarrow> string option" where
  "match_at prev s =
     (if word_boundary prev s \<and> prefix ''GM_'' s
      then (case takeWhile word_char (drop 3 s) of
              [] \<Rightarrow> None
            | w # ws \<Rightarrow> Some (''GM_'' @ w # ws))
      else None)"

text \<open>
  \<^verbatim>\<open>matchAll\<close> with the \<^verbatim>\<open>g\<close> flag: try the pattern at the current index; after a
  match go on behind it, otherwise one character further.
\<close>

function matchAll :: "bool \<Rightarrow> string \<Rightarrow> string list" where
  "matchAll prev [] = []"
| "matchAll prev (c # cs) =
     (case match_at prev (c # cs) of
        Some m \<Rightarrow> m # matchAll (word_char (last m)) (drop (length m) (c # cs))
      | None \<Rightarrow> matchAll (word_char c) cs)"
  by pat_completeness auto
termination
  by (relation "measure (\<lambda>(p, s). length s)")
     (auto simp: match_at_def split: if_splits list.splits)

text \<open>\<^verbatim>\<open>scanFile\<close>: every match of the file's text is added to \<^verbatim>\<open>gmApiCalls\<close>.\<close>

definition scanFile :: "string \<Rightarrow> js_set \<Rightarrow> js_set" where
  "scanFile content gmApiCalls = foldl Set_add gmApiCalls (matchAll False content)"

subsection \<open>The source tree\<close>

text \<open>
  What \<^verbatim>\<open>fs.readdirSync\<close>, \<^verbatim>\<open>fs.statSync\<close> and \<^verbatim>\<open>fs.readFileSync\<close> show of the
  tree under \<^verbatim>\<open>src\<close>: a directory is the list of its entries in the order
  \<^verbatim>\<open>readdirSync\<close> returns them, a file is its text.
\<close>

datatype node = File string | Directory "(string \<times> node) list"

definition endsWith :: "string \<Rightarrow> string \<Rightarrow> bool" where
  "endsWith s suf = suffix suf s"

definition startsWith :: "string \<Rightarrow> string \<Rightarrow> bool" where
  "startsWith s pre = prefix pre s"

text \<open>
  \<^verbatim>\<open>scanDirectory\<close>: every entry that is a directory is descended into, every other
  entry whose name ends in \<^verbatim>\<open>.ts\<close> or \<^verbatim>\<open>.js\<close> is scanned. The set \<^verbatim>\<open>gmApiCalls\<close>
  is a global of the script, here passed through.
\<close>

fun scanDirectory :: "(string \<times> node) list \<Rightarrow> js_set \<Rightarrow> js_set"
  and scanEntry :: "string \<Rightarrow> node \<Rightarrow> js_set \<Rightarrow> js_set" where
  "scanDirectory [] gmApiCalls = gmApiCalls"
| "scanDirectory ((file, n) # files) gmApiCalls =
     scanDirectory files (scanEntry file n gmApiCalls)"
| "scanEntry file (Directory files) gmApiCalls = scanDirectory files gmApiCalls"
| "scanEntry file (File content) gmApiCalls =
     (if endsWith file ''.ts'' \<or> endsWith file ''.js''
      then scanFile content gmApiCalls else gmApiCalls)"

subsection \<open>Missing and unused grants\<close>

text \<open>The loop over \<^verbatim>\<open>gmApiCalls\<close> that pushes every call the grants do not have.\<close>

fun missing_loop :: "js_set \<Rightarrow> string list \<Rightarrow> string list \<Rightarrow> string list" where
  "missing_loop grants [] missing = missing"
| "missing_loop grants (api # rest) missing =
     missing_loop grants rest (if \<not> Set_has grants api then missing @ [api] else missing)"

text \<open>
  The loop over \<^verbatim>\<open>grants\<close> that pushes every grant other than \<^verbatim>\<open>'none'\<close> that starts
  with \<^verbatim>\<open>GM_\<close> and is not among the calls.
\<close>

fun unused_loop :: "js_set \<Rightarrow> string list \<Rightarrow> string list \<Rightarrow> string list" where
  "unused_loop gmApiCalls [] unused = unused"
| "unused_loop gmApiCalls (g # rest) unused =
     unused_loop gmApiCalls rest
       (if g \<noteq> ''none'' \<and> startsWith g ''GM_'' \<and> \<not> Set_has gmApiCalls g
        then unused @ [g] else unused)"

definition find_missing :: "js_set \<Rightarrow> js_set \<Rightarrow> string list" where
  "find_missing grants gmApiCalls = missing_loop grants gmApiCalls []"

definition find_unused :: "js_set \<Rightarrow> js_set \<Rightarrow> string list" where
  "find_unused grants gmApiCalls = unused_loop gmApiCalls grants []"

subsection \<open>The report\<close>

text \<open>
  A console call is the method and the text it is given; the console ends the text with
  a line feed. \<^verbatim>\<open>console.error\<close> and \<^verbatim>\<open>console.warn\<close> write to the standard error,
  \<^verbatim>\<open>console.log\<close> to the standard output.
\<close>

datatype console = Error | Warn | Log

type_synonym transcript = "(console \<times> string) list"

definition LF :: string where
  "LF = [CHR 0x0A]"

definition cross_mark :: string where
  "cross_mark = [CHR 0xE2, CHR 0x9D, CHR 0x8C]"

definition warning_sign :: string where
  "warning_sign = [CHR 0xE2, CHR 0x9A, CHR 0xA0, CHR 0xEF, CHR 0xB8, CHR 0x8F]"

definition check_mark :: string where
  "check_mark = [CHR 0xE2, CHR 0x9C, CHR 0x85]"

definition missing_header :: string where
  "missing_header = cross_mark @ '' Missing GM API grants in meta.json:''"

definition missing_guidance :: string where
  "missing_guidance = LF @ ''Add these to the '' @ [CHR 0x22] @ ''grant'' @ [CHR 0x22] @
     '' array in meta.json'' @ LF"

definition unused_header :: string where
  "unused_header = warning_sign @ ''  Unused GM API grants in meta.json:''"

definition unused_guidance :: string where
  "unused_guidance = LF @ ''Consider removing these from meta.json for better security'' @ LF"

definition success_message :: string where
  "success_message = check_mark @ '' All GM API calls are properly granted!''"

definition item :: "string \<Rightarrow> string" where
  "item api = ''   - '' @ api"

text \<open>How the process ends: an exception nobody catches, or \<^verbatim>\<open>process.exit\<close>.\<close>

datatype error =
    ENOENT string string
  | ENOTDIR string string
  | SyntaxError string

datatype outcome = Uncaught error | Exit transcript int

text \<open>Lines 63 to 83 of the script.\<close>

definition report :: "string list \<Rightarrow> string list \<Rightarrow> outcome" where
  "report missing unused =
     (let out0 = [];
          (out1, hasIssues) =
            (if length missing > 0
             then (out0 @ [(Error, missing_header)]
                        @ map (\<lambda>api. (Error, item api)) missing
                        @ [(Error, missing_guidance)], True)
             else (out0, False));
          out2 =
            (if length unused > 0
             then out1 @ [(Warn, unused_header)]
                       @ map (\<lambda>api. (Warn, item api)) unused
                       @ [(Warn, unused_guidance)]
             else out1);
          out3 =
            (if \<not> hasIssues \<and> length unused = 0
             then out2 @ [(Log, success_message)]
             else out2)
      in Exit out3 (if hasIssues then 1 else 0))"

subsection \<open>The run\<close>

text \<open>
  The manifest as the script uses it: of the object that \<^verbatim>\<open>JSON.parse\<close> returns only
  the field \<^verbatim>\<open>grant\<close> is read. It is the array of strings that the template's
  documentation describes, or it is absent.
\<close>

record meta =
  grant :: "string list option"

text \<open>
  What the run finds at \<^verbatim>\<open>meta.json\<close>: no file, so that \<^verbatim>\<open>fs.readFileSync\<close> throws;
  a text that \<^verbatim>\<open>JSON.parse\<close> rejects with a \<^verbatim>\<open>SyntaxError\<close> of the given message
  (\<^verbatim>\<open>JSON.parse\<close> is given the text alone); or a manifest.
\<close>

datatype manifest_file = Missing | Malformed string | Manifest meta

text \<open>
  What a run depends on: \<^verbatim>\<open>rootDir\<close>, the directory above the script's own, and what
  is found at \<^verbatim>\<open>meta.json\<close> and at \<^verbatim>\<open>src\<close> in it.
\<close>

record env =
  rootDir :: string
  meta_json :: manifest_file
  src :: "node option"

text \<open>
  \<^verbatim>\<open>path.join\<close> of Node.js on POSIX, for two arguments: the arguments that are not
  empty are joined with a slash and the result is normalised. Normalising drops the empty
  segments and the segments \<^verbatim>\<open>.\<close>, lets a segment \<^verbatim>\<open>..\<close> take away the segment before
  it (above the root of an absolute path it is dropped, in a relative path it is kept when
  nothing is left to take away), and keeps a separator at the end.
\<close>

fun split_path :: "string \<Rightarrow> string \<Rightarrow> string list" where
  "split_path seg [] = [seg]"
| "split_path seg (c # cs) =
     (if c = CHR ''/'' then seg # split_path [] cs else split_path (seg @ [c]) cs)"

fun normalizeString :: "bool \<Rightarrow> string list \<Rightarrow> string list \<Rightarrow> string list" where
  "normalizeString allowAboveRoot res [] = res"
| "normalizeString allowAboveRoot res (seg # segs) =
     normalizeString allowAboveRoot
       (if seg = [] \<or> seg = ''.'' then res
        else if seg = ''..''
        then (if res \<noteq> [] \<and> last res \<noteq> ''..'' then butlast res
              else if allowAboveRoot then res @ [''..''] else res)
        else res @ [seg])
       segs"

fun join_segments :: "string list \<Rightarrow> string" where
  "join_segments [] = []"
| "join_segments [seg] = seg"
| "join_segments (seg # segs) = seg @ ''/'' @ join_segments segs"

definition path_normalize :: "string \<Rightarrow> string" where
  "path_normalize path =
     (if path = [] then ''.''
      else
        (let isAbsolute = (hd path = CHR ''/'');
             trailingSeparator = (last path = CHR ''/'');
             p = join_segments (normalizeString (\<not> isAbsolute) [] (split_path [] path))
         in if p = []
            then (if isAbsolute then ''/'' else if trailingSeparator then ''./'' else ''.'')
            else (if isAbsolute then ''/'' else []) @ p
                   @ (if trailingSeparator then ''/'' else [])))"

definition path_join :: "string \<Rightarrow> string \<Rightarrow> string" where
  "path_join dir name =
     (let joined = (if dir = [] then name else if name = [] then dir else dir @ ''/'' @ name)
      in if joined = [] then ''.'' else path_normalize joined)"

text \<open>\<^verbatim>\<open>new Set(meta.grant || [])\<close>; an array, also the empty one, is truthy.\<close>

definition grants_of :: "meta \<Rightarrow> js_set" where
  "grants_of m = new_Set (case grant m of None \<Rightarrow> [] | Some g \<Rightarrow> g)"

definition check :: "meta \<Rightarrow> (string \<times> node) list \<Rightarrow> outcome" where
  "check m files =
     (let grants = grants_of m;
          gmApiCalls = scanDirectory files [];
          missing = find_missing grants gmApiCalls;
          unused = find_unused grants gmApiCalls
      in report missing unused)"

definition main :: "env \<Rightarrow> outcome" where
  "main e =
     (case meta_json e of
        Missing \<Rightarrow> Uncaught (ENOENT ''open'' (path_join (rootDir e) ''meta.json''))
      | Malformed msg \<Rightarrow> Uncaught (SyntaxError msg)
      | Manifest m \<Rightarrow>
          (case src e of
             None \<Rightarrow> Uncaught (ENOENT ''scandir'' (path_join (rootDir e) ''src''))
           | Some (File content) \<Rightarrow> Uncaught (ENOTDIR ''scandir'' (path_join (rootDir e) ''src''))
           | Some (Directory files) \<Rightarrow> check m files))"

text \<open>
  An exception that reaches the top of a Node.js program is printed with its message and
  ends the process with code 1.
\<close>

fun exit_code :: "outcome \<Rightarrow> int" where
  "exit_code (Uncaught err) = 1"
| "exit_code (Exit out code) = code"

fun printed :: "outcome \<Rightarrow> transcript" where
  "printed (Uncaught err) = []"
| "printed (Exit out code) = out"

fun message :: "error \<Rightarrow> string" where
  "message (ENOENT syscall path) =
     ''ENOENT: no such file or directory, '' @ syscall @ '' '' @ [CHR 0x27] @ path @ [CHR 0x27]"
| "message (ENOTDIR syscall path) =
     ''ENOTDIR: not a directory, '' @ syscall @ '' '' @ [CHR 0x27] @ path @ [CHR 0x27]"
| "message (SyntaxError msg) = msg"

subsection \<open>What the specification speaks of\<close>

text \<open>
  The tokens of a text: its maximal runs of word characters, from left to right.
\<close>

function word_tokens :: "string \<Rightarrow> string list" where
  "word_tokens [] = []"
| "word_tokens (c # cs) =
     (if word_char c
      then takeWhile word_char (c # cs) # word_tokens (dropWhile word_char cs)
      else word_tokens cs)"
  by pat_completeness auto
termination
  by (relation "measure length") (auto simp: length_dropWhile_le less_Suc_eq_le)

text \<open>A token has the shape of a gated identifier: the prefix, then one or more word characters.\<close>

definition token_shape :: "string \<Rightarrow> string \<Rightarrow> bool" where
  "token_shape pre w =
     (prefix pre w \<and> drop (length pre) w \<noteq> [] \<and> list_all word_char (drop (length pre) w))"

text \<open>
  The extraction step as the specification words it, for a given prefix: the tokens of
  the text that have the shape.
\<close>

definition extractIdentifiers :: "string \<Rightarrow> string \<Rightarrow> string list" where
  "extractIdentifiers pre content = filter (token_shape pre) (word_tokens content)"

text \<open>The texts of the qualifying files of a tree, in the order of the walk.\<close>

fun source_texts :: "(string \<times> node) list \<Rightarrow> string list"
  and entry_texts :: "string \<Rightarrow> node \<Rightarrow> string list" where
  "source_texts [] = []"
| "source_texts ((file, n) # files) = entry_texts file n @ source_texts files"
| "entry_texts file (Directory files) = source_texts files"
| "entry_texts file (File content) =
     (if endsWith file ''.ts'' \<or> endsWith file ''.js'' then [content] else [])"

text \<open>
  The files of a tree, each with its path from the root of the tree (the names of the
  directories down to the file, then its name) and its text. Two listings show the same
  source when they hold the same files with the same texts at the same paths, in whatever
  order \<^verbatim>\<open>readdirSync\<close> lists the entries of each directory.
\<close>

fun tree_files :: "string list \<Rightarrow> (string \<times> node) list \<Rightarrow> (string list \<times> string) list"
  and node_files :: "string list \<Rightarrow> string \<Rightarrow> node \<Rightarrow> (string list \<times> string) list" where
  "tree_files dir [] = []"
| "tree_files dir ((file, n) # files) = node_files dir file n @ tree_files dir files"
| "node_files dir file (Directory files) = tree_files (dir @ [file]) files"
| "node_files dir file (File content) = [(dir @ [file], content)]"

fun same_source :: "node option \<Rightarrow> node option \<Rightarrow> bool" where
  "same_source None None = True"
| "same_source (Some (File c)) (Some (File c')) = (c = c')"
| "same_source (Some (Directory files)) (Some (Directory files')) =
     (set (tree_files [] files) = set (tree_files [] files'))"
| "same_source _ _ = False"


text \<open>
  The identifiers a run reports with one console method: the texts of its item lines,
  the indentation and the dash taken off.
\<close>

definition reported :: "console \<Rightarrow> outcome \<Rightarrow> string list" where
  "reported c r =
     map (\<lambda>l. drop 5 (snd l)) (filter (\<lambda>l. fst l = c \<and> prefix ''   - '' (snd l)) (printed r))"

text \<open>
  The summary lines of a transcript: the success message and the guidance that follows
  the missing grants.
\<close>

definition summary_lines :: "transcript \<Rightarrow> transcript" where
  "summary_lines out =
     filter (\<lambda>l. l = (Log, success_message) \<or> l = (Error, missing_guidance)) out"

text \<open>The closing lines of a transcript: the summary lines and the advice on unused grants.\<close>

definition closing_lines :: "transcript \<Rightarrow> transcript" where
  "closing_lines out =
     filter (\<lambda>l. l = (Log, success_message) \<or> l = (Error, missing_guidance)
                \<or> l = (Warn, unused_guidance)) out"

text \<open>
  The diagnostic of a run that an exception ended: the message of the exception. (The
  stack that Node.js prints below it names the script and the line of the call.)
\<close>

fun diagnostic :: "outcome \<Rightarrow> string" where
  "diagnostic (Uncaught err) = message err"
| "diagnostic (Exit out code) = []"

text \<open>The unused grants without the test for \<^verbatim>\<open>'none'\<close>.\<close>

fun unused_loop_no_sentinel :: "js_set \<Rightarrow> string list \<Rightarrow> string list \<Rightarrow> string list" where
  "unused_loop_no_sentinel gmApiCalls [] unused = unused"
| "unused_loop_no_sentinel gmApiCalls (g # rest) unused =
     unused_loop_no_sentinel gmApiCalls rest
       (if startsWith g ''GM_'' \<and> \<not> Set_has gmApiCalls g
        then unused @ [g] else unused)"

definition find_unused_no_sentinel :: "js_set \<Rightarrow> js_set \<Rightarrow> string list" where
  "find_unused_no_sentinel grants gmApiCalls = unused_loop_no_sentinel gmApiCalls grants []"

subsection \<open>Example runs\<close>

text \<open>
  A checkout at \<^verbatim>\<open>/repo\<close> whose manifest grants \<^verbatim>\<open>GM_setValue\<close> and whose sources call
  \<^verbatim>\<open>GM_setValue\<close> and, at three places of two files, \<^verbatim>\<open>GM_getValue\<close>.
\<close>

definition files_two_calls :: "(string \<times> node) list" where
  "files_two_calls =
     [(''index.ts'', File ''GM_setValue(k, GM_getValue(k) + GM_getValue(j));''),
      (''lib'', Directory [(''store.js'', File ''return GM_getValue(key);'')])]"

definition env_missing :: env where
  "env_missing =
     \<lparr>rootDir = ''/repo'',
      meta_json = Manifest \<lparr>grant = Some [''GM_setValue'']\<rparr>,
      src = Some (Directory files_two_calls)\<rparr>"

text \<open>
  Two checkouts of the same sources, with a manifest that has no \<^verbatim>\<open>grant\<close> field: at
  different places and with the entries of \<^verbatim>\<open>src\<close> listed in different orders.
\<close>

definition env_ungranted :: env where
  "env_ungranted =
     \<lparr>rootDir = ''/repo'', meta_json = Manifest \<lparr>grant = None\<rparr>,
      src = Some (Directory files_two_calls)\<rparr>"

definition files_two_calls_reordered :: "(string \<times> node) list" where
  "files_two_calls_reordered =
     [(''lib'', Directory [(''store.js'', File ''return GM_getValue(key);'')]),
      (''index.ts'', File ''GM_setValue(k, GM_getValue(k) + GM_getValue(j));'')]"

definition env_ungranted_reordered :: env where
  "env_ungranted_reordered =
     \<lparr>rootDir = ''/home/ci/build'', meta_json = Manifest \<lparr>grant = None\<rparr>,
      src = Some (Directory files_two_calls_reordered)\<rparr>"

text \<open>
  A checkout whose manifest grants \<^verbatim>\<open>GM_setValue\<close>, \<^verbatim>\<open>GM_notification\<close> and
  \<^verbatim>\<open>unsafeWindow\<close> and whose sources call \<^verbatim>\<open>GM_setValue\<close> only.
\<close>

definition files_one_call :: "(string \<times> node) list" where
  "files_one_call =
     [(''index.ts'', File ''GM_setValue(k, 1);''),
      (''notes.md'', File ''GM_download is not used'')]"

definition meta_wide :: meta where
  "meta_wide = \<lparr>grant = Some [''GM_setValue'', ''GM_notification'', ''unsafeWindow'']\<rparr>"

definition env_unused :: env where
  "env_unused =
     \<lparr>rootDir = ''/repo'', meta_json = Manifest meta_wide,
      src = Some (Directory files_one_call)\<rparr>"

text \<open>A checkout whose sources call \<^verbatim>\<open>GM_getValue\<close> and whose manifest grants \<^verbatim>\<open>GM_notification\<close>.\<close>

definition env_both :: env where
  "env_both =
     \<lparr>rootDir = ''/repo'',
      meta_json = Manifest \<lparr>grant = Some [''GM_notification'']\<rparr>,
      src = Some (Directory [(''index.ts'', File ''GM_getValue(k);'')])\<rparr>"

text \<open>
  A checkout with an empty \<^verbatim>\<open>meta.json\<close>, for which \<^verbatim>\<open>JSON.parse\<close> throws
  \<^verbatim>\<open>SyntaxError: Unexpected end of JSON input\<close>, and one without the file.
\<close>

definition env_malformed :: env where
  "env_malformed =
     \<lparr>rootDir = ''/repo'', meta_json = Malformed ''Unexpected end of JSON input'',
      src = Some (Directory files_one_call)\<rparr>"

definition env_no_manifest :: env where
  "env_no_manifest =
     \<lparr>rootDir = ''/repo'', meta_json = Missing, src = Some (Directory files_one_call)\<rparr>"

text \<open>
  The template itself: lines 32 to 37 of \<^verbatim>\<open>src/utils.ts\<close>, the commented-out
  \<^verbatim>\<open>addStyles\<close>, split at the call; the manifest grants \<^verbatim>\<open>GM_addStyle\<close>.
\<close>

definition utils_before :: string where
  "utils_before =
     ''// /**'' @ LF @
     ''//  * Add CSS styles using GM_addStyle'' @ LF @
     ''//  */'' @ LF @
     ''// export function addStyles(css: string): void {'' @ LF @
     ''//   ''"

definition utils_after :: string where
  "utils_after = ''(css);'' @ LF @ ''// }'' @ LF"

definition files_template :: "(string \<times> node) list" where
  "files_template =
     [(''index.ts'', File ''main();''),
      (''utils.ts'', File (utils_before @ ''GM_addStyle'' @ utils_after))]"

definition env_template :: env where
  "env_template =
     \<lparr>rootDir = ''/repo'', meta_json = Manifest \<lparr>grant = Some [''GM_addStyle'']\<rparr>,
      src = Some (Directory files_template)\<rparr>"

section \<open>Properties\<close>

subsection \<open>Sets and loops\<close>

lemma set_Set_add: "set (Set_add s x) = insert x (set s)"
  by (auto simp: Set_add_def Set_has_def)

lemma distinct_Set_add: "distinct s \<Longrightarrow> distinct (Set_add s x)"
  by (simp add: Set_add_def Set_has_def)

lemma set_foldl_Set_add: "set (foldl Set_add s xs) = set s \<union> set xs"
  by (induction xs arbitrary: s) (auto simp: set_Set_add)

lemma distinct_foldl_Set_add: "distinct s \<Longrightarrow> distinct (foldl Set_add s xs)"
  by (induction xs arbitrary: s) (auto simp: distinct_Set_add)

lemma set_new_Set: "set (new_Set xs) = set xs"
  by (simp add: new_Set_def set_foldl_Set_add)

lemma distinct_new_Set: "distinct (new_Set xs)"
  by (simp add: new_Set_def distinct_foldl_Set_add)

lemma missing_loop_filter:
  "missing_loop grants calls acc = acc @ filter (\<lambda>api. api \<notin> set grants) calls"
  by (induction calls arbitrary: acc) (auto simp: Set_has_def)

lemma unused_loop_filter:
  "unused_loop calls grants acc =
     acc @ filter (\<lambda>g. g \<noteq> ''none'' \<and> prefix ''GM_'' g \<and> g \<notin> set calls) grants"
  by (induction grants arbitrary: acc) (auto simp: Set_has_def startsWith_def)

lemma find_missing_filter:
  "find_missing grants calls = filter (\<lambda>api. api \<notin> set grants) calls"
  by (simp add: find_missing_def missing_loop_filter)

lemma find_unused_filter:
  "find_unused grants calls =
     filter (\<lambda>g. g \<noteq> ''none'' \<and> prefix ''GM_'' g \<and> g \<notin> set calls) grants"
  by (simp add: find_unused_def unused_loop_filter)

lemma set_scanFile: "set (scanFile content calls) = set calls \<union> set (matchAll False content)"
  by (simp add: scanFile_def set_foldl_Set_add)

lemma distinct_scanFile: "distinct calls \<Longrightarrow> distinct (scanFile content calls)"
  by (simp add: scanFile_def distinct_foldl_Set_add)

lemma distinct_scanDirectory:
  "distinct calls \<Longrightarrow> distinct (scanDirectory files calls)"
  "distinct calls \<Longrightarrow> distinct (scanEntry f n calls)"
  by (induction files calls and f n calls rule: scanDirectory_scanEntry.induct)
     (simp_all add: distinct_scanFile)

lemma set_scanDirectory:
  "set (scanDirectory files calls) =
     set calls \<union> (\<Union>c\<in>set (source_texts files). set (matchAll False c))"
  "set (scanEntry f n calls) =
     set calls \<union> (\<Union>c\<in>set (entry_texts f n). set (matchAll False c))"
  by (induction files calls and f n calls rule: scanDirectory_scanEntry.induct)
     (auto simp: set_scanFile)

subsection \<open>The pattern and the tokens\<close>

lemma word_char_GM [simp]: "word_char CHR ''G''" "word_char CHR ''M''" "word_char CHR ''_''"
  by (simp_all add: word_char_def)

lemma match_at_True [simp]: "match_at True s = None"
  by (cases s) (auto simp: match_at_def word_boundary_def prefix_Cons)

lemma matchAll_True: "matchAll True s = matchAll False (dropWhile word_char s)"
proof (induction s)
  case Nil
  then show ?case by simp
next
  case (Cons c cs)
  show ?case
  proof (cases "word_char c")
    case True
    with Cons show ?thesis by simp
  next
    case False
    then have "match_at False (c # cs) = None"
      by (simp add: match_at_def word_boundary_def)
    with False show ?thesis by simp
  qed
qed

lemma takeWhile_GM:
  "prefix ''GM_'' s \<Longrightarrow> takeWhile word_char s = ''GM_'' @ takeWhile word_char (drop 3 s)"
  by (auto simp: prefix_def)

lemma prefix_takeWhile_GM:
  "prefix ''GM_'' (takeWhile word_char s) \<longleftrightarrow> prefix ''GM_'' s"
proof
  assume "prefix ''GM_'' (takeWhile word_char s)"
  moreover have "prefix (takeWhile word_char s) s"
    by (metis prefix_def takeWhile_dropWhile_id)
  ultimately show "prefix ''GM_'' s" by (rule prefix_order.trans)
next
  assume "prefix ''GM_'' s"
  then show "prefix ''GM_'' (takeWhile word_char s)"
    by (simp add: takeWhile_GM)
qed

lemma list_all_takeWhile: "list_all P (takeWhile P xs)"
  by (induction xs) auto

lemma token_shape_takeWhile:
  "token_shape ''GM_'' (takeWhile word_char s)
     \<longleftrightarrow> prefix ''GM_'' s \<and> takeWhile word_char (drop 3 s) \<noteq> []"
proof (cases "prefix ''GM_'' s")
  case True
  then show ?thesis
    by (simp add: token_shape_def takeWhile_GM list_all_takeWhile)
next
  case False
  then show ?thesis
    by (simp add: token_shape_def prefix_takeWhile_GM)
qed

lemma match_at_word:
  assumes "word_char c"
  shows "match_at False (c # cs) =
           (if token_shape ''GM_'' (takeWhile word_char (c # cs))
            then Some (takeWhile word_char (c # cs)) else None)"
proof (cases "prefix ''GM_'' (c # cs)")
  case True
  define r where "r = takeWhile word_char (drop 3 (c # cs))"
  have tw: "takeWhile word_char (c # cs) = ''GM_'' @ r"
    unfolding r_def using True by (rule takeWhile_GM)
  have m: "match_at False (c # cs) = (case r of [] \<Rightarrow> None | w # ws \<Rightarrow> Some (''GM_'' @ w # ws))"
    unfolding r_def match_at_def word_boundary_def using True assms by simp
  have sh: "token_shape ''GM_'' (takeWhile word_char (c # cs)) \<longleftrightarrow> r \<noteq> []"
    unfolding token_shape_takeWhile r_def using True by simp
  show ?thesis
    unfolding sh unfolding tw m by (cases r) simp_all
next
  case False
  have "match_at False (c # cs) = None"
    unfolding match_at_def by (simp only: False simp_thms if_False)
  moreover have "\<not> token_shape ''GM_'' (takeWhile word_char (c # cs))"
    unfolding token_shape_takeWhile by (simp only: False simp_thms not_False_eq_True)
  ultimately show ?thesis by (simp only: if_False)
qed

lemma matchAll_tokens: "matchAll False s = extractIdentifiers ''GM_'' s"
proof (induction s rule: word_tokens.induct)
  case 1
  then show ?case by (simp add: extractIdentifiers_def)
next
  case (2 c cs)
  show ?case
  proof (cases "word_char c")
    case False
    then have "match_at False (c # cs) = None"
      by (simp add: match_at_def word_boundary_def)
    with False 2 show ?thesis by (simp add: extractIdentifiers_def)
  next
    case True
    let ?w = "takeWhile word_char (c # cs)"
    have IH: "matchAll False (dropWhile word_char cs) = extractIdentifiers ''GM_'' (dropWhile word_char cs)"
      using 2 True by simp
    have dd: "dropWhile word_char (dropWhile word_char cs) = dropWhile word_char cs"
      by (metis dropWhile_idem)
    show ?thesis
    proof (cases "token_shape ''GM_'' ?w")
      case shape: True
      have w: "?w \<noteq> []" using True by simp
      have lw: "word_char (last ?w)"
        using w by (metis last_in_set set_takeWhileD)
      have dr: "drop (length ?w) (c # cs) = dropWhile word_char cs"
        using True by (metis dropWhile.simps(2) dropWhile_eq_drop)
      have "matchAll False (c # cs) = ?w # matchAll True (dropWhile word_char cs)"
        using shape lw dr by (simp add: match_at_word [OF True] del: takeWhile.simps)
      then show ?thesis
        using shape True IH by (simp add: matchAll_True dd extractIdentifiers_def)
    next
      case noshape: False
      have "matchAll False (c # cs) = matchAll True cs"
        using noshape True by (simp add: match_at_word [OF True] del: takeWhile.simps)
      then show ?thesis
        using noshape True IH by (simp add: matchAll_True extractIdentifiers_def)
    qed
  qed
qed

subsection \<open>The report\<close>

lemma is_item_item [simp]: "prefix ''   - '' (item api)" "drop 5 (item api) = api"
  by (simp_all add: item_def)

lemma not_item_fixed [simp]:
  "\<not> prefix ''   - '' missing_header" "\<not> prefix ''   - '' missing_guidance"
  "\<not> prefix ''   - '' unused_header" "\<not> prefix ''   - '' unused_guidance"
  "\<not> prefix ''   - '' success_message"
  by (simp_all add: missing_header_def missing_guidance_def unused_header_def
        unused_guidance_def success_message_def cross_mark_def warning_sign_def
        check_mark_def LF_def)

lemma item_neq_fixed [simp]:
  "item api \<noteq> missing_header" "item api \<noteq> missing_guidance"
  "item api \<noteq> unused_header" "item api \<noteq> unused_guidance"
  "item api \<noteq> success_message"
  by (simp_all add: item_def missing_header_def missing_guidance_def unused_header_def
        unused_guidance_def success_message_def cross_mark_def warning_sign_def
        check_mark_def LF_def)

lemma item_inj [simp]: "item a = item b \<longleftrightarrow> a = b"
  by (simp add: item_def)

lemma printed_report:
  "printed (report missing unused) =
     (if missing = [] then []
      else (Error, missing_header) # map (\<lambda>api. (Error, item api)) missing
             @ [(Error, missing_guidance)])
     @ (if unused = [] then []
        else (Warn, unused_header) # map (\<lambda>api. (Warn, item api)) unused
               @ [(Warn, unused_guidance)])
     @ (if missing = [] \<and> unused = [] then [(Log, success_message)] else [])"
  by (simp add: report_def)

lemma exit_code_report: "exit_code (report missing unused) = (if missing = [] then 0 else 1)"
  by (simp add: report_def)

lemma filter_items_same:
  "filter (\<lambda>l. fst l = c \<and> prefix ''   - '' (snd l)) (map (\<lambda>api. (c, item api)) xs)
     = map (\<lambda>api. (c, item api)) xs"
  by (induction xs) simp_all

lemma filter_items_other:
  "c' \<noteq> c \<Longrightarrow>
   filter (\<lambda>l. fst l = c \<and> prefix ''   - '' (snd l)) (map (\<lambda>api. (c', item api)) xs) = []"
  by (induction xs) simp_all

lemma reported_report:
  "reported Error (report missing unused) = missing"
  "reported Warn (report missing unused) = unused"
  "reported Log (report missing unused) = []"
  by (simp_all add: reported_def printed_report filter_items_same filter_items_other
        comp_def)

lemma main_complete:
  "meta_json e = Manifest m \<Longrightarrow> src e = Some (Directory files) \<Longrightarrow>
   main e = report (find_missing (grants_of m) (scanDirectory files []))
                   (find_unused (grants_of m) (scanDirectory files []))"
  by (simp add: main_def check_def Let_def)

lemma main_cases:
  "(\<exists>err. main e = Uncaught err) \<or>
   (\<exists>m files. meta_json e = Manifest m \<and> src e = Some (Directory files))"
  by (auto simp: main_def split: manifest_file.splits option.splits node.splits)

lemma reported_Uncaught [simp]: "reported c (Uncaught err) = []"
  by (simp add: reported_def)

lemma count_list_distinct: "distinct xs \<Longrightarrow> x \<in> set xs \<Longrightarrow> count_list xs x = 1"
  by (induction xs) (auto simp: count_list_0_iff)

lemma count_item_lines:
  "length (filter (\<lambda>l. snd l = item a) (map (\<lambda>x. (c, item x)) xs)) = count_list xs a"
  by (induction xs) auto

lemma fixed_neq_item [simp]:
  "missing_header \<noteq> item api" "missing_guidance \<noteq> item api"
  "unused_header \<noteq> item api" "unused_guidance \<noteq> item api"
  "success_message \<noteq> item api"
  using item_neq_fixed [of api] by (simp_all only: not_sym not_False_eq_True)

lemma item_count_report:
  "length (filter (\<lambda>l. snd l = item a) (printed (report missing unused)))
     = count_list missing a + count_list unused a"
proof -
  have "length (filter (\<lambda>l. snd l = item a) (printed (report missing unused)))
     = length (filter (\<lambda>l. snd l = item a) (map (\<lambda>x. (Error, item x)) missing))
       + length (filter (\<lambda>l. snd l = item a) (map (\<lambda>x. (Warn, item x)) unused))"
    unfolding printed_report by (simp del: filter_map)
  then show ?thesis
    by (simp only: count_item_lines)
qed

lemma distinct_find_missing: "distinct calls \<Longrightarrow> distinct (find_missing grants calls)"
  by (simp add: find_missing_filter)

lemma none_not_GM: "\<not> startsWith ''none'' ''GM_''"
  by (simp add: startsWith_def)

lemma unused_loop_no_sentinel_eq:
  "unused_loop_no_sentinel calls gs acc = unused_loop calls gs acc"
proof (induction gs arbitrary: acc)
  case Nil
  then show ?case by simp
next
  case (Cons g gs)
  have "startsWith g ''GM_'' \<Longrightarrow> g \<noteq> ''none''"
    using none_not_GM by auto
  with Cons show ?case by auto
qed

lemma fixed_distinct [simp]:
  "missing_header \<noteq> missing_guidance" "missing_header \<noteq> success_message"
  "unused_header \<noteq> unused_guidance" "unused_header \<noteq> success_message"
  "unused_guidance \<noteq> success_message" "missing_guidance \<noteq> success_message"
  by (simp_all add: missing_header_def missing_guidance_def unused_header_def
        unused_guidance_def success_message_def cross_mark_def warning_sign_def
        check_mark_def LF_def)

lemma summary_lines_items [simp]:
  "summary_lines (map (\<lambda>api. (c, item api)) xs) = []"
  by (induction xs) (simp_all add: summary_lines_def)

lemma summary_lines_append [simp]:
  "summary_lines (xs @ ys) = summary_lines xs @ summary_lines ys"
  by (simp add: summary_lines_def)

lemma summary_lines_Cons:
  "summary_lines (l # ls) =
     (if l = (Log, success_message) \<or> l = (Error, missing_guidance) then [l] else [])
     @ summary_lines ls"
  by (simp add: summary_lines_def)

lemma summary_lines_Nil [simp]: "summary_lines [] = []"
  by (simp add: summary_lines_def)

lemma summary_lines_report:
  "summary_lines (printed (report missing unused)) =
     (if missing \<noteq> [] then [(Error, missing_guidance)]
      else if unused = [] then [(Log, success_message)] else [])"
  by (simp add: printed_report summary_lines_Cons)

lemma closing_lines_items [simp]:
  "closing_lines (map (\<lambda>api. (c, item api)) xs) = []"
  by (induction xs) (simp_all add: closing_lines_def)

lemma closing_lines_append [simp]:
  "closing_lines (xs @ ys) = closing_lines xs @ closing_lines ys"
  by (simp add: closing_lines_def)

lemma closing_lines_Cons:
  "closing_lines (l # ls) =
     (if l = (Log, success_message) \<or> l = (Error, missing_guidance)
         \<or> l = (Warn, unused_guidance) then [l] else [])
     @ closing_lines ls"
  by (simp add: closing_lines_def)

lemma closing_lines_Nil [simp]: "closing_lines [] = []"
  by (simp add: closing_lines_def)

lemma closing_lines_report:
  "closing_lines (printed (report missing unused)) =
     (if missing \<noteq> [] then [(Error, missing_guidance)] else [])
     @ (if unused \<noteq> [] then [(Warn, unused_guidance)] else [])
     @ (if missing = [] \<and> unused = [] then [(Log, success_message)] else [])"
  by (simp add: printed_report closing_lines_Cons)

lemma main_rootDir:
  assumes "meta_json e1 = meta_json e2" "src e1 = src e2"
  shows "main e1 = main e2 \<or> (\<exists>err1 err2. main e1 = Uncaught err1 \<and> main e2 = Uncaught err2)"
proof (cases "meta_json e1")
  case Missing
  moreover from Missing assms have "meta_json e2 = Missing" by simp
  ultimately show ?thesis by (simp add: main_def)
next
  case (Malformed msg)
  moreover from Malformed assms have "meta_json e2 = Malformed msg" by simp
  ultimately show ?thesis by (simp add: main_def)
next
  case (Manifest m)
  from Manifest assms have m2: "meta_json e2 = Manifest m" by simp
  show ?thesis
  proof (cases "src e1")
    case None
    moreover from None assms have "src e2 = None" by simp
    ultimately show ?thesis using Manifest m2 by (simp add: main_def)
  next
    case (Some n)
    from Some assms have s2: "src e2 = Some n" by simp
    show ?thesis using Manifest m2 Some s2 by (cases n) (simp_all add: main_def)
  qed
qed

lemma sublist_quoted: "sublist p (a @ [q] @ p @ [q'])"
proof -
  have "sublist p ((a @ [q]) @ p @ [q'])"
    by (rule sublist_appendI)
  then show ?thesis by simp
qed

lemma word_tokens_word:
  assumes "list_all word_char tok" "tok \<noteq> []" "post = [] \<or> \<not> word_char (hd post)"
  shows "word_tokens (tok @ post) = tok # word_tokens post"
proof -
  obtain t ts where tok: "tok = t # ts"
    using assms(2) by (cases tok) auto
  have all: "\<forall>x\<in>set tok. word_char x"
    using assms(1) by (simp add: list_all_iff)
  have post: "takeWhile word_char post = []" "dropWhile word_char post = post"
    using assms(3) by (cases post; simp)+
  have tw: "takeWhile word_char (tok @ post) = tok"
    using all post by (simp add: takeWhile_append2)
  have dw: "dropWhile word_char (ts @ post) = post"
    using all post tok by (simp add: dropWhile_append2)
  have "word_char t"
    using all tok by simp
  then have "word_tokens ((t # ts) @ post)
      = takeWhile word_char ((t # ts) @ post) # word_tokens (dropWhile word_char (ts @ post))"
    by simp
  then show ?thesis
    using tw dw tok by simp
qed

lemma word_tokens_append:
  "pre = [] \<or> \<not> word_char (last pre) \<Longrightarrow>
   word_tokens (pre @ s) = word_tokens pre @ word_tokens s"
proof (induction pre rule: word_tokens.induct)
  case 1
  then show ?case by simp
next
  case (2 c cs)
  have lastc: "\<not> word_char (last (c # cs))"
    using "2.prems" by simp
  show ?case
  proof (cases "word_char c")
    case False
    have "cs = [] \<or> \<not> word_char (last cs)"
      using lastc by (cases cs) auto
    with False "2.IH"(2) show ?thesis by simp
  next
    case True
    then have cs: "cs \<noteq> []" "\<not> word_char (last cs)"
      using lastc by (cases cs; auto)+
    then have ex: "last cs \<in> set cs" "\<not> word_char (last cs)"
      by simp_all
    have tw: "takeWhile word_char (cs @ s) = takeWhile word_char cs"
      using ex by (rule takeWhile_append1)
    have dw: "dropWhile word_char (cs @ s) = dropWhile word_char cs @ s"
      using ex by (rule dropWhile_append1)
    have ne: "dropWhile word_char cs \<noteq> []"
      using ex by (auto simp: dropWhile_eq_Nil_conv)
    have "last (dropWhile word_char cs) = last cs"
      using ne by (metis last_appendR takeWhile_dropWhile_id)
    then have "dropWhile word_char cs = [] \<or> \<not> word_char (last (dropWhile word_char cs))"
      using cs by simp
    then have "word_tokens (dropWhile word_char cs @ s)
        = word_tokens (dropWhile word_char cs) @ word_tokens s"
      using "2.IH"(1) True by simp
    then show ?thesis
      using True tw dw by simp
  qed
qed

lemma token_shape_all_word:
  "token_shape ''GM_'' tok \<Longrightarrow> list_all word_char tok \<and> tok \<noteq> []"
proof -
  assume t: "token_shape ''GM_'' tok"
  then obtain r where r: "tok = ''GM_'' @ r"
    by (auto simp: token_shape_def prefix_def)
  with t have "list_all word_char r"
    by (simp add: token_shape_def)
  with r show ?thesis by simp
qed

lemma token_found:
  assumes "token_shape ''GM_'' tok" "pre = [] \<or> \<not> word_char (last pre)"
    "post = [] \<or> \<not> word_char (hd post)"
  shows "tok \<in> set (matchAll False (pre @ tok @ post))"
proof -
  have w: "list_all word_char tok" "tok \<noteq> []"
    using assms(1) by (simp_all add: token_shape_all_word)
  have "word_tokens (pre @ tok @ post) = word_tokens pre @ tok # word_tokens post"
    using assms(2) w assms(3) by (simp add: word_tokens_append word_tokens_word)
  then show ?thesis
    using assms(1) by (simp add: matchAll_tokens extractIdentifiers_def)
qed

lemma prefix_length_two:
  assumes "length p = 2" "prefix p (a # b # rest)"
  shows "p = [a, b]"
proof -
  from assms(2) obtain r where "a # b # rest = p @ r"
    by (auto simp: prefix_def)
  with assms(1) show ?thesis
    by (cases p; cases "tl p"; auto)
qed

lemma no_two_character_prefix:
  assumes "length p = 2"
  shows "matchAll False ''GM_a'' \<noteq> extractIdentifiers p ''GM_a''
    \<or> matchAll False ''GMa'' \<noteq> extractIdentifiers p ''GMa''"
proof (cases "p = ''GM''")
  case True
  have "matchAll False ''GMa'' = []" "extractIdentifiers ''GM'' ''GMa'' = [''GMa'']"
    by code_simp+
  with True show ?thesis by simp
next
  case False
  have m: "matchAll False ''GM_a'' = [''GM_a'']" and w: "word_tokens ''GM_a'' = [''GM_a'']"
    by code_simp+
  have "\<not> token_shape p ''GM_a''"
    using False assms prefix_length_two [of p "CHR ''G''" "CHR ''M''" "''_a''"]
    by (auto simp: token_shape_def)
  then have "extractIdentifiers p ''GM_a'' = []"
    by (simp only: extractIdentifiers_def w filter.simps if_False)
  with m show ?thesis by simp
qed

lemma set_grants_of:
  "set (grants_of m) = set (case grant m of None \<Rightarrow> [] | Some g \<Rightarrow> g)"
  by (simp add: grants_of_def set_new_Set)

lemma distinct_grants_of: "distinct (grants_of m)"
  by (simp add: grants_of_def distinct_new_Set)

lemma distinct_find_unused: "distinct grants \<Longrightarrow> distinct (find_unused grants calls)"
  by (simp add: find_unused_filter)

lemma find_missing_Nil_iff:
  "find_missing grants calls = [] \<longleftrightarrow> set calls \<subseteq> set grants"
  by (auto simp: find_missing_filter filter_empty_conv)

lemma last_printed_report:
  "last (printed (report missing unused)) =
     (if unused \<noteq> [] then (Warn, unused_guidance)
      else if missing \<noteq> [] then (Error, missing_guidance)
      else (Log, success_message))"
  by (simp add: printed_report)

lemma source_texts_tree_files:
  "source_texts files =
     map snd (filter (\<lambda>x. endsWith (last (fst x)) ''.ts'' \<or> endsWith (last (fst x)) ''.js'')
       (tree_files dir files))"
  "entry_texts f n =
     map snd (filter (\<lambda>x. endsWith (last (fst x)) ''.ts'' \<or> endsWith (last (fst x)) ''.js'')
       (node_files dir f n))"
  by (induction dir files and dir f n rule: tree_files_node_files.induct) simp_all

lemma set_source_texts:
  "set (source_texts files) =
     snd ` {x \<in> set (tree_files dir files).
             endsWith (last (fst x)) ''.ts'' \<or> endsWith (last (fst x)) ''.js''}"
  by (simp add: source_texts_tree_files(1) [of files dir])

lemma same_files_same_calls:
  assumes "set (tree_files [] files) = set (tree_files [] files')"
  shows "set (scanDirectory files []) = set (scanDirectory files' [])"
proof -
  have "set (source_texts files) = set (source_texts files')"
    using assms by (simp only: set_source_texts [of _ "[]"])
  then show ?thesis
    by (simp add: set_scanDirectory)
qed

lemma exit_code_check:
  "exit_code (check m files) = (if set (scanDirectory files []) \<subseteq> set (grants_of m) then 0 else 1)"
  by (auto simp: check_def Let_def exit_code_report find_missing_filter filter_empty_conv)

lemma reported_check:
  "set (reported Error (check m files)) = set (scanDirectory files []) - set (grants_of m)"
  "set (reported Warn (check m files))
     = {g \<in> set (grants_of m). g \<noteq> ''none'' \<and> prefix ''GM_'' g \<and> g \<notin> set (scanDirectory files [])}"
  by (auto simp: check_def Let_def reported_report find_missing_filter find_unused_filter)

lemma same_source_main:
  assumes "meta_json e1 = meta_json e2" "same_source (src e1) (src e2)"
  shows "exit_code (main e1) = exit_code (main e2)
     \<and> set (reported Error (main e1)) = set (reported Error (main e2))
     \<and> set (reported Warn (main e1)) = set (reported Warn (main e2))"
proof (cases "meta_json e1")
  case Missing
  moreover from Missing assms have "meta_json e2 = Missing" by simp
  ultimately show ?thesis by (simp add: main_def)
next
  case (Malformed msg)
  moreover from Malformed assms have "meta_json e2 = Malformed msg" by simp
  ultimately show ?thesis by (simp add: main_def)
next
  case (Manifest m)
  from Manifest assms have m2: "meta_json e2 = Manifest m" by simp
  show ?thesis
  proof (cases "src e1")
    case None
    with assms(2) have "src e2 = None"
      by (cases "src e2") simp_all
    with None Manifest m2 show ?thesis by (simp add: main_def)
  next
    case (Some n)
    show ?thesis
    proof (cases n)
      case (File c)
      with Some assms(2) have "src e2 = Some (File c)"
        by (cases "src e2"; cases "the (src e2)") simp_all
      with Some File Manifest m2 show ?thesis by (simp add: main_def)
    next
      case (Directory files)
      with Some assms(2) obtain files' where s2: "src e2 = Some (Directory files')"
        and eq: "set (tree_files [] files) = set (tree_files [] files')"
        by (cases "src e2"; cases "the (src e2)") simp_all
      have c: "set (scanDirectory files []) = set (scanDirectory files' [])"
        using eq by (rule same_files_same_calls)
      have 1: "main e1 = check m files" "main e2 = check m files'"
        using Manifest m2 Some Directory s2 by (simp_all add: main_def)
      show ?thesis
        unfolding 1 by (simp only: exit_code_check reported_check c simp_thms)
    qed
  qed
qed

lemma same_src_printed:
  assumes "meta_json e1 = meta_json e2" "src e1 = src e2"
  shows "printed (main e1) = printed (main e2)"
  using main_rootDir [OF assms] by auto

section \<open>The claims\<close>

text \<open>
  C1. For a run that has a manifest and a source tree, the exit code is 1 if some match
  of a qualifying file is not among the strings of the manifest's \<^verbatim>\<open>grant\<close> array and 0
  otherwise: it is 0 exactly when the calls found are a subset of the grants, which is
  when the list of missing calls is empty. The unused grants have no part in it: a report
  exits with 1 exactly when its missing calls are not empty, whatever its unused grants.
\<close>

theorem exit_code_by_missing:
  "meta_json e = Manifest m \<and> src e = Some (Directory files) \<longrightarrow>
     exit_code (main e) =
       (if (\<Union>c\<in>set (source_texts files). set (matchAll False c))
             \<subseteq> set (case grant m of None \<Rightarrow> [] | Some g \<Rightarrow> g)
        then 0 else 1)
     \<and> exit_code (main e) =
       (if set (scanDirectory files []) - set (grants_of m) = {} then 0 else 1)
     \<and> exit_code (main e) =
       (if find_missing (grants_of m) (scanDirectory files []) = [] then 0 else 1)
     \<and> (set (scanDirectory files []) \<subseteq> set (grants_of m) \<longrightarrow> exit_code (main e) = 0)
     \<and> exit_code (report (find_missing (grants_of m) (scanDirectory files [])) unused)
         = exit_code (main e)
     \<and> exit_code (report missing unused) = (if missing = [] then 0 else 1)"
proof (intro impI, elim conjE)
  assume m: "meta_json e = Manifest m" and s: "src e = Some (Directory files)"
  let ?calls = "scanDirectory files []"
  let ?missing = "find_missing (grants_of m) ?calls"
  have 3: "exit_code (main e) = (if ?missing = [] then 0 else 1)"
    by (simp add: main_complete [OF m s] exit_code_report)
  have sub: "?missing = [] \<longleftrightarrow> set ?calls \<subseteq> set (grants_of m)"
    by (rule find_missing_Nil_iff)
  have 2: "exit_code (main e) = (if set ?calls - set (grants_of m) = {} then 0 else 1)"
    unfolding 3 sub by (simp only: Diff_eq_empty_iff)
  have calls: "set ?calls = (\<Union>c\<in>set (source_texts files). set (matchAll False c))"
    by (simp add: set_scanDirectory)
  have 1: "exit_code (main e) =
       (if (\<Union>c\<in>set (source_texts files). set (matchAll False c))
             \<subseteq> set (case grant m of None \<Rightarrow> [] | Some g \<Rightarrow> g)
        then 0 else 1)"
    unfolding 3 sub calls set_grants_of ..
  have 4: "set ?calls \<subseteq> set (grants_of m) \<longrightarrow> exit_code (main e) = 0"
    unfolding 3 sub by simp
  have 5: "exit_code (report ?missing unused) = exit_code (main e)"
    by (simp add: 3 exit_code_report)
  have 6: "exit_code (report missing unused) = (if missing = [] then 0 else 1)"
    by (rule exit_code_report)
  from 1 2 3 4 5 6 show "exit_code (main e) =
       (if (\<Union>c\<in>set (source_texts files). set (matchAll False c))
             \<subseteq> set (case grant m of None \<Rightarrow> [] | Some g \<Rightarrow> g)
        then 0 else 1)
     \<and> exit_code (main e) =
       (if set (scanDirectory files []) - set (grants_of m) = {} then 0 else 1)
     \<and> exit_code (main e) =
       (if find_missing (grants_of m) (scanDirectory files []) = [] then 0 else 1)
     \<and> (set (scanDirectory files []) \<subseteq> set (grants_of m) \<longrightarrow> exit_code (main e) = 0)
     \<and> exit_code (report (find_missing (grants_of m) (scanDirectory files [])) unused)
         = exit_code (main e)
     \<and> exit_code (report missing unused) = (if missing = [] then 0 else 1)"
    by (intro conjI)
qed

text \<open>
  A run with an unused grant and every call granted, which exits with 0, and a run with
  the call \<^verbatim>\<open>GM_getValue\<close> not granted, which exits with 1.
\<close>

theorem exit_code_by_missing_witness:
  "meta_json env_unused = Manifest meta_wide
   \<and> src env_unused = Some (Directory files_one_call)
   \<and> set (scanDirectory files_one_call []) \<subseteq> set (grants_of meta_wide)
   \<and> find_unused (grants_of meta_wide) (scanDirectory files_one_call []) = [''GM_notification'']
   \<and> exit_code (main env_unused) = 0
   \<and> exit_code (report (find_missing (grants_of meta_wide) (scanDirectory files_one_call [])) [])
       = exit_code (main env_unused)
   \<and> meta_json env_missing = Manifest \<lparr>grant = Some [''GM_setValue'']\<rparr>
   \<and> src env_missing = Some (Directory files_two_calls)
   \<and> set (scanDirectory files_two_calls []) - set (grants_of \<lparr>grant = Some [''GM_setValue'']\<rparr>)
       = {''GM_getValue''}
   \<and> exit_code (main env_missing) = 1"
proof -
  have h: "meta_json env_unused = Manifest meta_wide
     \<and> src env_unused = Some (Directory files_one_call)"
    by (simp add: env_unused_def)
  have s: "set (scanDirectory files_one_call []) \<subseteq> set (grants_of meta_wide)"
    by code_simp
  have u: "find_unused (grants_of meta_wide) (scanDirectory files_one_call [])
    = [''GM_notification'']"
    by code_simp
  have h': "meta_json env_missing = Manifest \<lparr>grant = Some [''GM_setValue'']\<rparr>
     \<and> src env_missing = Some (Directory files_two_calls)"
    by (simp add: env_missing_def)
  have c: "scanDirectory files_two_calls [] = [''GM_setValue'', ''GM_getValue'']"
    "grants_of \<lparr>grant = Some [''GM_setValue'']\<rparr> = [''GM_setValue'']"
    by code_simp+
  have d: "set (scanDirectory files_two_calls []) - set (grants_of \<lparr>grant = Some [''GM_setValue'']\<rparr>)
       = {''GM_getValue''}"
    unfolding c by simp
  from exit_code_by_missing [of env_unused meta_wide files_one_call "[]" "[]"] h s
  have a: "exit_code (main env_unused) = 0
     \<and> exit_code (report (find_missing (grants_of meta_wide) (scanDirectory files_one_call [])) [])
       = exit_code (main env_unused)"
    by blast
  from exit_code_by_missing [of env_missing "\<lparr>grant = Some [''GM_setValue'']\<rparr>"
      files_two_calls "[]" "[]"] h'
  have "exit_code (main env_missing) =
       (if set (scanDirectory files_two_calls []) - set (grants_of \<lparr>grant = Some [''GM_setValue'']\<rparr>) = {}
        then 0 else 1)"
    by blast
  then have b: "exit_code (main env_missing) = 1"
    unfolding d by simp
  from h s u a h' d b show ?thesis by (intro conjI) (erule conjunct1 conjunct2 | assumption)+
qed

text \<open>
  C2. When a call found in some qualifying file of the tree is not among the grants, the
  run exits with 1 and the call is reported once: it is once among the reported missing
  calls and one line of the whole transcript is its item line, however often the files
  hold it.
\<close>

theorem missing_reported_once:
  "meta_json e = Manifest m \<and> src e = Some (Directory files)
   \<and> c \<in> set (source_texts files) \<and> api \<in> set (matchAll False c)
   \<and> api \<notin> set (grants_of m) \<longrightarrow>
     exit_code (main e) = 1
     \<and> count_list (reported Error (main e)) api = 1
     \<and> length (filter (\<lambda>l. snd l = item api) (printed (main e))) = 1"
proof (intro impI, elim conjE)
  assume m: "meta_json e = Manifest m" and s: "src e = Some (Directory files)"
    and c: "c \<in> set (source_texts files)" and a: "api \<in> set (matchAll False c)"
    and g: "api \<notin> set (grants_of m)"
  let ?calls = "scanDirectory files []"
  let ?missing = "find_missing (grants_of m) ?calls"
  let ?unused = "find_unused (grants_of m) ?calls"
  have run: "main e = report ?missing ?unused"
    using m s by (rule main_complete)
  have "api \<in> set ?calls"
    using c a by (auto simp: set_scanDirectory)
  then have mem: "api \<in> set ?missing" and nu: "api \<notin> set ?unused"
    using g by (simp_all add: find_missing_filter find_unused_filter)
  have "distinct ?missing"
    by (simp add: distinct_find_missing distinct_scanDirectory)
  then have one: "count_list ?missing api = 1"
    using mem by (rule count_list_distinct)
  have zero: "count_list ?unused api = 0"
    using nu by (simp add: count_list_0_iff)
  have ne: "?missing \<noteq> []"
    using mem by auto
  have 1: "exit_code (main e) = 1"
    using ne by (simp add: run exit_code_report)
  have 2: "count_list (reported Error (main e)) api = 1"
    using one by (simp add: run reported_report)
  have 3: "length (filter (\<lambda>l. snd l = item api) (printed (main e))) = 1"
    using one zero by (simp add: run item_count_report)
  from 1 2 3 show "exit_code (main e) = 1
     \<and> count_list (reported Error (main e)) api = 1
     \<and> length (filter (\<lambda>l. snd l = item api) (printed (main e))) = 1"
    by blast
qed

theorem missing_reported_once_witness:
  "meta_json env_missing = Manifest \<lparr>grant = Some [''GM_setValue'']\<rparr>
   \<and> src env_missing = Some (Directory files_two_calls)
   \<and> ''return GM_getValue(key);'' \<in> set (source_texts files_two_calls)
   \<and> ''GM_getValue'' \<in> set (matchAll False ''return GM_getValue(key);'')
   \<and> ''GM_getValue'' \<notin> set (grants_of \<lparr>grant = Some [''GM_setValue'']\<rparr>)
   \<and> exit_code (main env_missing) = 1
   \<and> count_list (reported Error (main env_missing)) ''GM_getValue'' = 1
   \<and> length (filter (\<lambda>l. snd l = item ''GM_getValue'') (printed (main env_missing))) = 1"
proof -
  have h: "meta_json env_missing = Manifest \<lparr>grant = Some [''GM_setValue'']\<rparr>
     \<and> src env_missing = Some (Directory files_two_calls)
     \<and> ''return GM_getValue(key);'' \<in> set (source_texts files_two_calls)
     \<and> ''GM_getValue'' \<in> set (matchAll False ''return GM_getValue(key);'')
     \<and> ''GM_getValue'' \<notin> set (grants_of \<lparr>grant = Some [''GM_setValue'']\<rparr>)"
    by code_simp
  from missing_reported_once [of env_missing "\<lparr>grant = Some [''GM_setValue'']\<rparr>"
      files_two_calls "''return GM_getValue(key);''" "''GM_getValue''"] h
  show ?thesis by blast
qed

text \<open>
  C3, as stated, fails: the unused grants are not the grants outside the calls with only
  \<^verbatim>\<open>'none'\<close> removed. The grant \<^verbatim>\<open>unsafeWindow\<close> is not called and is not reported.
\<close>

theorem unused_not_plain_difference:
  "set (find_unused [''unsafeWindow''] []) \<noteq> set [''unsafeWindow''] - set [] - {''none''}"
  by (simp add: find_unused_def startsWith_def Set_has_def)

text \<open>
  C3, amended. The missing calls are the calls that are not grants; the unused grants are
  the grants that are not calls, without \<^verbatim>\<open>'none'\<close> and without every grant that does
  not start with \<^verbatim>\<open>GM_\<close>. Membership is equality of strings.
\<close>

theorem report_set_differences:
  "set (find_missing grants gmApiCalls) = set gmApiCalls - set grants
   \<and> set (find_unused grants gmApiCalls)
       = set grants - set gmApiCalls - {''none''} - {g. \<not> startsWith g ''GM_''}"
  by (auto simp: find_missing_filter find_unused_filter startsWith_def)

theorem report_set_differences_witness:
  "set (find_missing [''GM_setValue'', ''GM_notification'', ''unsafeWindow'', ''none'']
          [''GM_setValue'', ''GM_getValue'']) = {''GM_getValue''}
   \<and> set (find_unused [''GM_setValue'', ''GM_notification'', ''unsafeWindow'', ''none'']
          [''GM_setValue'', ''GM_getValue'']) = {''GM_notification''}"
proof -
  have m: "find_missing [''GM_setValue'', ''GM_notification'', ''unsafeWindow'', ''none'']
          [''GM_setValue'', ''GM_getValue''] = [''GM_getValue'']"
    by code_simp
  have u: "find_unused [''GM_setValue'', ''GM_notification'', ''unsafeWindow'', ''none'']
          [''GM_setValue'', ''GM_getValue''] = [''GM_notification'']"
    by code_simp
  from report_set_differences [of "[''GM_setValue'', ''GM_notification'', ''unsafeWindow'', ''none'']"
      "[''GM_setValue'', ''GM_getValue'']"]
  show ?thesis by (simp only: m u list.set)
qed

text \<open>
  C4, as stated, fails: with a prefix of two characters the shape also fits the tokens
  \<^verbatim>\<open>GM_\<close> and \<^verbatim>\<open>GMT_OFFSET\<close>, which the pattern does not match.
\<close>

theorem two_character_prefix_fails:
  "extractIdentifiers ''GM'' ''all GM_ API calls'' = [''GM_'']
   \<and> matchAll False ''all GM_ API calls'' = []
   \<and> extractIdentifiers ''GM'' ''const GMT_OFFSET = 0;'' = [''GMT_OFFSET'']
   \<and> matchAll False ''const GMT_OFFSET = 0;'' = []"
  by code_simp

text \<open>
  C4, amended. The matches of a text are its tokens (its maximal runs of word characters)
  that consist of the three characters \<^verbatim>\<open>GM_\<close> and one or more word characters after
  them, in the order of the text; a scanned file adds exactly these to the set of calls; and
  the set after the walk is the union of them over the texts of the qualifying files, a set
  of strings that holds no file name and no line.
\<close>

theorem extraction_is_tokens:
  "matchAll False content = extractIdentifiers ''GM_'' content
   \<and> set (scanFile content gmApiCalls) = set gmApiCalls \<union> set (extractIdentifiers ''GM_'' content)
   \<and> set (scanDirectory files []) = (\<Union>c\<in>set (source_texts files). set (extractIdentifiers ''GM_'' c))"
  by (simp add: set_scanFile set_scanDirectory matchAll_tokens)

theorem extraction_is_tokens_witness:
  "matchAll False ''GM_setValue(k, GM_getValue(k) + GM_getValue(j));''
     = extractIdentifiers ''GM_'' ''GM_setValue(k, GM_getValue(k) + GM_getValue(j));''
   \<and> extractIdentifiers ''GM_'' ''GM_setValue(k, GM_getValue(k) + GM_getValue(j));''
     = [''GM_setValue'', ''GM_getValue'', ''GM_getValue'']
   \<and> set (scanDirectory files_two_calls [])
     = (\<Union>c\<in>set (source_texts files_two_calls). set (extractIdentifiers ''GM_'' c))
   \<and> source_texts files_two_calls
     = [''GM_setValue(k, GM_getValue(k) + GM_getValue(j));'', ''return GM_getValue(key);'']
   \<and> scanDirectory files_two_calls [] = [''GM_setValue'', ''GM_getValue'']"
proof -
  have x: "extractIdentifiers ''GM_'' ''GM_setValue(k, GM_getValue(k) + GM_getValue(j));''
     = [''GM_setValue'', ''GM_getValue'', ''GM_getValue'']"
    by code_simp
  have t: "source_texts files_two_calls
     = [''GM_setValue(k, GM_getValue(k) + GM_getValue(j));'', ''return GM_getValue(key);'']"
    by code_simp
  have d: "scanDirectory files_two_calls [] = [''GM_setValue'', ''GM_getValue'']"
    by code_simp
  from extraction_is_tokens [of "''GM_setValue(k, GM_getValue(k) + GM_getValue(j));''"
      "[]" files_two_calls] x t d
  show ?thesis by blast
qed

text \<open>
  C5, as stated, fails. With no missing call and one unused grant the transcript has
  neither the success message nor the guidance for missing grants; with a missing call and
  an unused grant it closes with two guidance lines, the last of them the advice on
  unused grants.
\<close>

theorem summary_line_not_always_one:
  "summary_lines (printed (main env_unused)) = []
   \<and> closing_lines (printed (main env_both))
       = [(Error, missing_guidance), (Warn, unused_guidance)]
   \<and> last (printed (main env_both)) = (Warn, unused_guidance)"
  by code_simp

text \<open>
  C5, amended. The transcript of a run that completes is, in this order: when a call is
  missing, the header of the missing grants, one item line for each missing call and the
  guidance for missing grants, all with \<^verbatim>\<open>console.error\<close>; when a grant is unused,
  the header of the unused grants, one item line for each unused grant and the advice on
  unused grants, all with \<^verbatim>\<open>console.warn\<close>; when neither is so, the success message.
  Each missing call and each unused grant has one item line. The last line is the advice
  on unused grants when a grant is unused, otherwise the guidance for missing grants when
  a call is missing, otherwise the success message. So of the summary lines the run
  prints the guidance for missing grants when a call is missing, the success message
  when no call is missing and no grant is unused, and none when no call is missing and a
  grant is unused.
\<close>

theorem report_lines:
  "meta_json e = Manifest m \<and> src e = Some (Directory files) \<longrightarrow>
     (let missing = find_missing (grants_of m) (scanDirectory files []);
          unused = find_unused (grants_of m) (scanDirectory files [])
      in printed (main e) =
           (if missing = [] then []
            else [(Error, missing_header)] @ map (\<lambda>api. (Error, item api)) missing
                   @ [(Error, missing_guidance)])
           @ (if unused = [] then []
              else [(Warn, unused_header)] @ map (\<lambda>api. (Warn, item api)) unused
                     @ [(Warn, unused_guidance)])
           @ (if missing = [] \<and> unused = [] then [(Log, success_message)] else [])
         \<and> last (printed (main e)) =
             (if unused \<noteq> [] then (Warn, unused_guidance)
              else if missing \<noteq> [] then (Error, missing_guidance)
              else (Log, success_message))
         \<and> reported Error (main e) = missing \<and> distinct missing
         \<and> set missing = set (scanDirectory files []) - set (grants_of m)
         \<and> reported Warn (main e) = unused \<and> distinct unused
         \<and> set unused = set (grants_of m) - set (scanDirectory files []) - {''none''}
                          - {g. \<not> startsWith g ''GM_''}
         \<and> summary_lines (printed (main e)) =
             (if missing \<noteq> [] then [(Error, missing_guidance)]
              else if unused = [] then [(Log, success_message)] else [])
         \<and> closing_lines (printed (main e)) =
             (if missing \<noteq> [] then [(Error, missing_guidance)] else [])
             @ (if unused \<noteq> [] then [(Warn, unused_guidance)] else [])
             @ (if missing = [] \<and> unused = [] then [(Log, success_message)] else []))"
proof (intro impI, elim conjE)
  assume m: "meta_json e = Manifest m" and s: "src e = Some (Directory files)"
  define missing where "missing = find_missing (grants_of m) (scanDirectory files [])"
  define unused where "unused = find_unused (grants_of m) (scanDirectory files [])"
  have run: "main e = report missing unused"
    unfolding missing_def unused_def using m s by (rule main_complete)
  have 1: "printed (main e) =
           (if missing = [] then []
            else [(Error, missing_header)] @ map (\<lambda>api. (Error, item api)) missing
                   @ [(Error, missing_guidance)])
           @ (if unused = [] then []
              else [(Warn, unused_header)] @ map (\<lambda>api. (Warn, item api)) unused
                     @ [(Warn, unused_guidance)])
           @ (if missing = [] \<and> unused = [] then [(Log, success_message)] else [])"
    unfolding run printed_report by simp
  have 2: "last (printed (main e)) =
             (if unused \<noteq> [] then (Warn, unused_guidance)
              else if missing \<noteq> [] then (Error, missing_guidance)
              else (Log, success_message))"
    unfolding run by (rule last_printed_report)
  have 3: "reported Error (main e) = missing" "reported Warn (main e) = unused"
    unfolding run by (rule reported_report)+
  have 4: "distinct missing" "distinct unused"
    unfolding missing_def unused_def
    by (simp_all add: distinct_find_missing distinct_scanDirectory distinct_find_unused
          distinct_grants_of)
  have 5: "set missing = set (scanDirectory files []) - set (grants_of m)"
    unfolding missing_def by (auto simp: find_missing_filter)
  have 6: "set unused = set (grants_of m) - set (scanDirectory files []) - {''none''}
                          - {g. \<not> startsWith g ''GM_''}"
    unfolding unused_def by (auto simp: find_unused_filter startsWith_def)
  have 7: "summary_lines (printed (main e)) =
             (if missing \<noteq> [] then [(Error, missing_guidance)]
              else if unused = [] then [(Log, success_message)] else [])"
    unfolding run by (rule summary_lines_report)
  have 8: "closing_lines (printed (main e)) =
             (if missing \<noteq> [] then [(Error, missing_guidance)] else [])
             @ (if unused \<noteq> [] then [(Warn, unused_guidance)] else [])
             @ (if missing = [] \<and> unused = [] then [(Log, success_message)] else [])"
    unfolding run by (rule closing_lines_report)
  from 1 2 3 4 5 6 7 8 show "(let missing = find_missing (grants_of m) (scanDirectory files []);
          unused = find_unused (grants_of m) (scanDirectory files [])
      in printed (main e) =
           (if missing = [] then []
            else [(Error, missing_header)] @ map (\<lambda>api. (Error, item api)) missing
                   @ [(Error, missing_guidance)])
           @ (if unused = [] then []
              else [(Warn, unused_header)] @ map (\<lambda>api. (Warn, item api)) unused
                     @ [(Warn, unused_guidance)])
           @ (if missing = [] \<and> unused = [] then [(Log, success_message)] else [])
         \<and> last (printed (main e)) =
             (if unused \<noteq> [] then (Warn, unused_guidance)
              else if missing \<noteq> [] then (Error, missing_guidance)
              else (Log, success_message))
         \<and> reported Error (main e) = missing \<and> distinct missing
         \<and> set missing = set (scanDirectory files []) - set (grants_of m)
         \<and> reported Warn (main e) = unused \<and> distinct unused
         \<and> set unused = set (grants_of m) - set (scanDirectory files []) - {''none''}
                          - {g. \<not> startsWith g ''GM_''}
         \<and> summary_lines (printed (main e)) =
             (if missing \<noteq> [] then [(Error, missing_guidance)]
              else if unused = [] then [(Log, success_message)] else [])
         \<and> closing_lines (printed (main e)) =
             (if missing \<noteq> [] then [(Error, missing_guidance)] else [])
             @ (if unused \<noteq> [] then [(Warn, unused_guidance)] else [])
             @ (if missing = [] \<and> unused = [] then [(Log, success_message)] else []))"
    unfolding Let_def missing_def [symmetric] unused_def [symmetric] by (intro conjI)
qed

theorem report_lines_witness:
  "meta_json env_both = Manifest \<lparr>grant = Some [''GM_notification'']\<rparr>
   \<and> src env_both = Some (Directory [(''index.ts'', File ''GM_getValue(k);'')])
   \<and> printed (main env_both) =
       [(Error, missing_header), (Error, item ''GM_getValue''), (Error, missing_guidance),
        (Warn, unused_header), (Warn, item ''GM_notification''), (Warn, unused_guidance)]
   \<and> last (printed (main env_both)) = (Warn, unused_guidance)
   \<and> reported Error (main env_both) = [''GM_getValue'']
   \<and> reported Warn (main env_both) = [''GM_notification'']
   \<and> summary_lines (printed (main env_both)) = [(Error, missing_guidance)]
   \<and> closing_lines (printed (main env_both))
       = [(Error, missing_guidance), (Warn, unused_guidance)]"
proof -
  have h: "meta_json env_both = Manifest \<lparr>grant = Some [''GM_notification'']\<rparr>
     \<and> src env_both = Some (Directory [(''index.ts'', File ''GM_getValue(k);'')])"
    by (simp add: env_both_def)
  have f: "find_missing (grants_of \<lparr>grant = Some [''GM_notification'']\<rparr>)
        (scanDirectory [(''index.ts'', File ''GM_getValue(k);'')] []) = [''GM_getValue'']"
     "find_unused (grants_of \<lparr>grant = Some [''GM_notification'']\<rparr>)
        (scanDirectory [(''index.ts'', File ''GM_getValue(k);'')] []) = [''GM_notification'']"
    by code_simp+
  note c1 = report_lines [of env_both "\<lparr>grant = Some [''GM_notification'']\<rparr>"
      "[(''index.ts'', File ''GM_getValue(k);'')]", unfolded Let_def f, rule_format, OF h]
  note c2 = c1 [THEN conjunct2]
  note c3 = c2 [THEN conjunct2]
  note c6 = c3 [THEN conjunct2, THEN conjunct2, THEN conjunct2]
  note c9 = c6 [THEN conjunct2, THEN conjunct2, THEN conjunct2]
  have p: "printed (main env_both) =
       [(Error, missing_header), (Error, item ''GM_getValue''), (Error, missing_guidance),
        (Warn, unused_header), (Warn, item ''GM_notification''), (Warn, unused_guidance)]"
    using c1 [THEN conjunct1] by simp
  have l: "last (printed (main env_both)) = (Warn, unused_guidance)"
    using c2 [THEN conjunct1] by simp
  have r: "reported Error (main env_both) = [''GM_getValue'']"
    "reported Warn (main env_both) = [''GM_notification'']"
    using c3 [THEN conjunct1] c6 [THEN conjunct1] by simp_all
  have q: "summary_lines (printed (main env_both)) = [(Error, missing_guidance)]"
    "closing_lines (printed (main env_both))
       = [(Error, missing_guidance), (Warn, unused_guidance)]"
    using c9 [THEN conjunct1] c9 [THEN conjunct2] by simp_all
  from h p l r q show ?thesis by (intro conjI) (erule conjunct1 conjunct2 | assumption)+
qed

text \<open>
  C6, as stated, fails for a manifest that does not parse: the run ends with the
  \<^verbatim>\<open>SyntaxError\<close> of \<^verbatim>\<open>JSON.parse\<close>, whose message for an empty file does not name
  \<^verbatim>\<open>meta.json\<close> and is the same wherever the checkout lies.
\<close>

theorem malformed_diagnostic_without_file:
  "main env_malformed = Uncaught (SyntaxError ''Unexpected end of JSON input'')
   \<and> \<not> sublist ''meta.json'' (diagnostic (main env_malformed))
   \<and> diagnostic (main (env_malformed\<lparr>rootDir := ''/srv/checkout''\<rparr>))
       = diagnostic (main env_malformed)"
  by code_simp

text \<open>
  C6, amended. Without a manifest file the run ends with the \<^verbatim>\<open>ENOENT\<close> error of the
  read, whose message holds the path of the manifest; with a manifest that does not parse
  it ends with the \<^verbatim>\<open>SyntaxError\<close> of the parser, the diagnostic being the parser's
  message. In both cases the exit code is not 0 and nothing of the report is printed.
\<close>

theorem manifest_failure_aborts:
  "(meta_json e = Missing \<longrightarrow>
      main e = Uncaught (ENOENT ''open'' (path_join (rootDir e) ''meta.json''))
      \<and> exit_code (main e) \<noteq> 0 \<and> printed (main e) = []
      \<and> sublist (path_join (rootDir e) ''meta.json'') (diagnostic (main e)))
   \<and> (meta_json e = Malformed msg \<longrightarrow>
      main e = Uncaught (SyntaxError msg)
      \<and> exit_code (main e) \<noteq> 0 \<and> printed (main e) = []
      \<and> diagnostic (main e) = msg)"
proof (intro conjI impI)
  assume m: "meta_json e = Missing"
  then show "main e = Uncaught (ENOENT ''open'' (path_join (rootDir e) ''meta.json''))"
    by (simp add: main_def)
  then show "exit_code (main e) \<noteq> 0" "printed (main e) = []"
    by simp_all
  have "diagnostic (main e) =
      ''ENOENT: no such file or directory, open '' @ [CHR 0x27]
        @ path_join (rootDir e) ''meta.json'' @ [CHR 0x27]"
    using m by (simp add: main_def)
  then show "sublist (path_join (rootDir e) ''meta.json'') (diagnostic (main e))"
    by (simp only: sublist_quoted)
next
  assume m: "meta_json e = Malformed msg"
  then show "main e = Uncaught (SyntaxError msg)"
    by (simp add: main_def)
  then show "exit_code (main e) \<noteq> 0" "printed (main e) = []" "diagnostic (main e) = msg"
    by simp_all
qed

theorem manifest_failure_aborts_witness:
  "meta_json env_no_manifest = Missing
   \<and> main env_no_manifest = Uncaught (ENOENT ''open'' ''/repo/meta.json'')
   \<and> exit_code (main env_no_manifest) \<noteq> 0 \<and> printed (main env_no_manifest) = []
   \<and> sublist ''/repo/meta.json'' (diagnostic (main env_no_manifest))
   \<and> meta_json env_malformed = Malformed ''Unexpected end of JSON input''
   \<and> exit_code (main env_malformed) \<noteq> 0 \<and> printed (main env_malformed) = []
   \<and> diagnostic (main env_malformed) = ''Unexpected end of JSON input''"
proof -
  have h1: "meta_json env_no_manifest = Missing"
    by (simp add: env_no_manifest_def)
  have h2: "meta_json env_malformed = Malformed ''Unexpected end of JSON input''"
    by (simp add: env_malformed_def)
  have p: "path_join (rootDir env_no_manifest) ''meta.json'' = ''/repo/meta.json''"
    by code_simp
  from manifest_failure_aborts [of env_no_manifest "[]"] h1
  have a: "main env_no_manifest = Uncaught (ENOENT ''open'' ''/repo/meta.json'')
     \<and> exit_code (main env_no_manifest) \<noteq> 0 \<and> printed (main env_no_manifest) = []
     \<and> sublist ''/repo/meta.json'' (diagnostic (main env_no_manifest))"
    unfolding p by blast
  from manifest_failure_aborts [of env_malformed "''Unexpected end of JSON input''"] h2
  have b: "exit_code (main env_malformed) \<noteq> 0 \<and> printed (main env_malformed) = []
     \<and> diagnostic (main env_malformed) = ''Unexpected end of JSON input''"
    by blast
  from h1 h2 a b show ?thesis by blast
qed

text \<open>
  C7. Two runs that find the same manifest and the same source (the same files with the
  same texts at the same paths), wherever the checkout lies and in whatever order the
  entries of each directory are listed, end with the same exit code and report the same
  set of missing calls and the same set of unused grants; when the entries are also
  listed in the same order the two transcripts are equal.
\<close>

theorem same_inputs_same_report:
  "meta_json e1 = meta_json e2 \<and> same_source (src e1) (src e2) \<longrightarrow>
     exit_code (main e1) = exit_code (main e2)
     \<and> set (reported Error (main e1)) = set (reported Error (main e2))
     \<and> set (reported Warn (main e1)) = set (reported Warn (main e2))
     \<and> (src e1 = src e2 \<longrightarrow> printed (main e1) = printed (main e2))"
proof (intro impI, elim conjE)
  assume m: "meta_json e1 = meta_json e2" and s: "same_source (src e1) (src e2)"
  have 1: "exit_code (main e1) = exit_code (main e2)
     \<and> set (reported Error (main e1)) = set (reported Error (main e2))
     \<and> set (reported Warn (main e1)) = set (reported Warn (main e2))"
    using m s by (rule same_source_main)
  have 2: "src e1 = src e2 \<longrightarrow> printed (main e1) = printed (main e2)"
  proof
    assume "src e1 = src e2"
    with m show "printed (main e1) = printed (main e2)"
      by (rule same_src_printed)
  qed
  from 1 2 show "exit_code (main e1) = exit_code (main e2)
     \<and> set (reported Error (main e1)) = set (reported Error (main e2))
     \<and> set (reported Warn (main e1)) = set (reported Warn (main e2))
     \<and> (src e1 = src e2 \<longrightarrow> printed (main e1) = printed (main e2))"
    by blast
qed

text \<open>
  Two checkouts at different places whose \<^verbatim>\<open>src\<close> is listed in different orders: the
  missing calls are found in different orders and are the same set.
\<close>

theorem same_inputs_same_report_witness:
  "meta_json env_ungranted = meta_json env_ungranted_reordered
   \<and> same_source (src env_ungranted) (src env_ungranted_reordered)
   \<and> src env_ungranted \<noteq> src env_ungranted_reordered
   \<and> rootDir env_ungranted \<noteq> rootDir env_ungranted_reordered
   \<and> reported Error (main env_ungranted) = [''GM_setValue'', ''GM_getValue'']
   \<and> reported Error (main env_ungranted_reordered) = [''GM_getValue'', ''GM_setValue'']
   \<and> exit_code (main env_ungranted) = 1
   \<and> exit_code (main env_ungranted) = exit_code (main env_ungranted_reordered)
   \<and> set (reported Error (main env_ungranted)) = set (reported Error (main env_ungranted_reordered))
   \<and> set (reported Warn (main env_ungranted)) = set (reported Warn (main env_ungranted_reordered))"
proof -
  have t: "tree_files [] files_two_calls =
      [([''index.ts''], ''GM_setValue(k, GM_getValue(k) + GM_getValue(j));''),
       ([''lib'', ''store.js''], ''return GM_getValue(key);'')]"
    "tree_files [] files_two_calls_reordered =
      [([''lib'', ''store.js''], ''return GM_getValue(key);''),
       ([''index.ts''], ''GM_setValue(k, GM_getValue(k) + GM_getValue(j));'')]"
    by (simp_all add: files_two_calls_def files_two_calls_reordered_def)
  have h: "meta_json env_ungranted = meta_json env_ungranted_reordered
     \<and> same_source (src env_ungranted) (src env_ungranted_reordered)"
    by (simp add: env_ungranted_def env_ungranted_reordered_def t insert_commute)
  have d: "src env_ungranted \<noteq> src env_ungranted_reordered
     \<and> rootDir env_ungranted \<noteq> rootDir env_ungranted_reordered"
    by (simp add: env_ungranted_def env_ungranted_reordered_def files_two_calls_def
        files_two_calls_reordered_def)
  have v: "reported Error (main env_ungranted) = [''GM_setValue'', ''GM_getValue'']
     \<and> reported Error (main env_ungranted_reordered) = [''GM_getValue'', ''GM_setValue'']
     \<and> exit_code (main env_ungranted) = 1"
    by code_simp
  from same_inputs_same_report [of env_ungranted env_ungranted_reordered] h
  have c: "exit_code (main env_ungranted) = exit_code (main env_ungranted_reordered)
     \<and> set (reported Error (main env_ungranted)) = set (reported Error (main env_ungranted_reordered))
     \<and> set (reported Warn (main env_ungranted)) = set (reported Warn (main env_ungranted_reordered))"
    by blast
  from h d v c show ?thesis by blast
qed

text \<open>
  C8. A grant that does not start with \<^verbatim>\<open>GM_\<close> is never among the unused grants, for
  any grants and calls, and no run reports it as unused.
\<close>

theorem unprefixed_never_unused:
  "\<not> startsWith g ''GM_'' \<longrightarrow>
     g \<notin> set (find_unused grants gmApiCalls) \<and> g \<notin> set (reported Warn (main e))"
proof
  assume g: "\<not> startsWith g ''GM_''"
  then have 1: "g \<notin> set (find_unused grants' calls)" for grants' calls
    by (simp add: find_unused_filter startsWith_def)
  have "g \<notin> set (reported Warn (main e))"
    using main_cases [of e]
  proof (elim disjE exE conjE)
    fix err assume "main e = Uncaught err"
    then show ?thesis by simp
  next
    fix m files assume "meta_json e = Manifest m" "src e = Some (Directory files)"
    then show ?thesis by (simp add: main_complete reported_report 1)
  qed
  with 1 show "g \<notin> set (find_unused grants gmApiCalls) \<and> g \<notin> set (reported Warn (main e))"
    by simp
qed

text \<open>The grant \<^verbatim>\<open>unsafeWindow\<close> of a manifest whose sources never name it.\<close>

theorem unprefixed_never_unused_witness:
  "\<not> startsWith ''unsafeWindow'' ''GM_''
   \<and> ''unsafeWindow'' \<in> set (grants_of meta_wide)
   \<and> ''unsafeWindow'' \<notin> set (scanDirectory files_one_call [])
   \<and> ''unsafeWindow'' \<notin> set (find_unused (grants_of meta_wide) (scanDirectory files_one_call []))
   \<and> ''unsafeWindow'' \<notin> set (reported Warn (main env_unused))"
proof -
  have h: "\<not> startsWith ''unsafeWindow'' ''GM_''
     \<and> ''unsafeWindow'' \<in> set (grants_of meta_wide)
     \<and> ''unsafeWindow'' \<notin> set (scanDirectory files_one_call [])"
    by code_simp
  from unprefixed_never_unused [of "''unsafeWindow''" "grants_of meta_wide"
      "scanDirectory files_one_call []" env_unused] h
  show ?thesis by blast
qed

text \<open>
  C9. The scan knows no syntax: a token of the shape that stands between any text
  \<open>pre\<close> and any text \<open>post\<close> of a qualifying file (a comment opener, a quote), with no
  word character next to it, is among the calls after the walk, so it is not among the
  unused grants and no run on the tree reports it as unused.
\<close>

theorem comment_counts_as_use:
  "token_shape ''GM_'' tok \<and> (pre = [] \<or> \<not> word_char (last pre))
   \<and> (post = [] \<or> \<not> word_char (hd post))
   \<and> pre @ tok @ post \<in> set (source_texts files) \<longrightarrow>
     tok \<in> set (scanDirectory files [])
     \<and> tok \<notin> set (find_unused grants (scanDirectory files []))
     \<and> (meta_json e = Manifest m \<and> src e = Some (Directory files) \<longrightarrow>
          tok \<notin> set (reported Warn (main e)))"
proof (intro impI, elim conjE)
  assume t: "token_shape ''GM_'' tok" and p: "pre = [] \<or> \<not> word_char (last pre)"
    and q: "post = [] \<or> \<not> word_char (hd post)"
    and c: "pre @ tok @ post \<in> set (source_texts files)"
  have "tok \<in> set (matchAll False (pre @ tok @ post))"
    using t p q by (rule token_found)
  with c have 1: "tok \<in> set (scanDirectory files [])"
    by (auto simp: set_scanDirectory)
  then have 2: "tok \<notin> set (find_unused grants' (scanDirectory files []))" for grants'
    by (simp add: find_unused_filter)
  have 3: "meta_json e = Manifest m \<and> src e = Some (Directory files) \<longrightarrow>
          tok \<notin> set (reported Warn (main e))"
    using 2 by (auto simp: main_complete reported_report)
  from 1 2 3 show "tok \<in> set (scanDirectory files [])
     \<and> tok \<notin> set (find_unused grants (scanDirectory files []))
     \<and> (meta_json e = Manifest m \<and> src e = Some (Directory files) \<longrightarrow>
          tok \<notin> set (reported Warn (main e)))"
    by blast
qed

text \<open>
  The template: \<^verbatim>\<open>GM_addStyle\<close> is granted and only the commented-out \<^verbatim>\<open>addStyles\<close>
  of \<^verbatim>\<open>utils.ts\<close> names it.
\<close>

theorem comment_counts_as_use_witness:
  "token_shape ''GM_'' ''GM_addStyle''
   \<and> \<not> word_char (last utils_before) \<and> \<not> word_char (hd utils_after)
   \<and> utils_before @ ''GM_addStyle'' @ utils_after \<in> set (source_texts files_template)
   \<and> meta_json env_template = Manifest \<lparr>grant = Some [''GM_addStyle'']\<rparr>
   \<and> src env_template = Some (Directory files_template)
   \<and> ''GM_addStyle'' \<in> set (scanDirectory files_template [])
   \<and> ''GM_addStyle'' \<notin> set (find_unused [''GM_addStyle''] (scanDirectory files_template []))
   \<and> ''GM_addStyle'' \<notin> set (reported Warn (main env_template))"
proof -
  have h: "token_shape ''GM_'' ''GM_addStyle''
     \<and> \<not> word_char (last utils_before) \<and> \<not> word_char (hd utils_after)"
    by code_simp
  have f: "utils_before @ ''GM_addStyle'' @ utils_after \<in> set (source_texts files_template)"
    by (simp add: files_template_def endsWith_def suffix_to_prefix)
  have e: "meta_json env_template = Manifest \<lparr>grant = Some [''GM_addStyle'']\<rparr>
     \<and> src env_template = Some (Directory files_template)"
    by (simp add: env_template_def)
  from comment_counts_as_use [of "''GM_addStyle''" utils_before utils_after files_template
      "[''GM_addStyle'']" env_template "\<lparr>grant = Some [''GM_addStyle'']\<rparr>"] h f e
  show ?thesis by blast
qed

text \<open>
  C10. The test for \<^verbatim>\<open>'none'\<close> is redundant: the loop without it computes the same
  unused grants, for all grants and calls, since \<^verbatim>\<open>'none'\<close> does not start with
  \<^verbatim>\<open>GM_\<close>.
\<close>

theorem sentinel_test_redundant:
  "find_unused_no_sentinel grants gmApiCalls = find_unused grants gmApiCalls
   \<and> \<not> startsWith ''none'' ''GM_''"
  by (simp add: find_unused_no_sentinel_def find_unused_def unused_loop_no_sentinel_eq
        none_not_GM)

theorem sentinel_test_redundant_witness:
  "find_unused_no_sentinel [''none'', ''GM_notification'', ''GM_setValue''] [''GM_setValue'']
     = [''GM_notification'']
   \<and> find_unused [''none'', ''GM_notification'', ''GM_setValue''] [''GM_setValue'']
     = [''GM_notification'']"
proof -
  have u: "find_unused [''none'', ''GM_notification'', ''GM_setValue''] [''GM_setValue'']
     = [''GM_notification'']"
    by code_simp
  from sentinel_test_redundant [of "[''none'', ''GM_notification'', ''GM_setValue'']"
      "[''GM_setValue'']"] u
  show ?thesis by simp
qed

end
